theory Spec2Isabelle
  imports Main "HOL-Library.Word"
begin

section \<open>LCDMenu.h: the data model\<close>

text \<open>
  The code is written for the AVR boards that \<^verbatim>\<open>WProgram.h\<close> serves: \<^verbatim>\<open>int\<close> is a
  16-bit two's complement value and \<^verbatim>\<open>unsigned long\<close> a 32-bit unsigned one. Both are
  words, so \<open>+\<close> and \<open>-\<close> wrap around; an \<^verbatim>\<open>int\<close> is compared through the signed
  orders \<open><s\<close> and \<open>\<le>s\<close>, an \<^verbatim>\<open>unsigned long\<close> through \<open><\<close> and \<open>\<le>\<close>.

  A \<^verbatim>\<open>float\<close> is a value of a type variable \<open>'v\<close>. The three operations of the
  language that the code applies to floats (\<^verbatim>\<open>!=\<close>, \<^verbatim>\<open>+\<close> and \<^verbatim>\<open>*\<close>) are passed to
  the functions that use them, in a record \<open>float_ops\<close>: nothing is assumed about them, so
  every theorem holds for IEEE arithmetic as well, where a NaN differs from itself.

  A pointer is an address or \<^verbatim>\<open>NULL\<close> (\<open>None\<close>). Objects live in two stores, one for
  the sections and one for the parameters, that map addresses to objects.
\<close>

type_synonym cint = "16 word"
type_synonym ulong = "32 word"
type_synonym byte = "8 word"
type_synonym ref = nat
type_synonym ptr = "ref option"

record 'v float_ops =
  f_ne :: "'v \<Rightarrow> 'v \<Rightarrow> bool"
  f_add :: "'v \<Rightarrow> 'v \<Rightarrow> 'v"
  f_mul :: "'v \<Rightarrow> 'v \<Rightarrow> 'v"

text \<open>
  Modelled from the spec: the struct \<^verbatim>\<open>Event\<close> of \<^verbatim>\<open>Event.h\<close>, which is not among the
  sources. The spec gives its fields as the parameter's identity tag (an int), a
  timestamp in milliseconds, the new value (a number) and a reference to the parameter.
  The code assigns a \<^verbatim>\<open>float\<close> to the value field in \<^verbatim>\<open>LCDMenuParameter::setValue\<close> and
  an \<^verbatim>\<open>int\<close> in \<^verbatim>\<open>LCDMenuButton::setValue\<close>; the field keeps the number it was given.
\<close>

datatype 'v number = FloatVal 'v | IntVal cint

record 'v Event =
  e_source :: cint
  e_time :: ulong
  e_value :: "'v number"
  e_object :: ref

text \<open>
  What a call does to the world outside the objects, in the order it does it: the
  arguments of each \<^verbatim>\<open>Serial.print\<close>, each \<^verbatim>\<open>delay\<close>, and each call of a registered
  callback (a function pointer, here its address) with the event it got. The body of a
  callback belongs to the application and is not part of this file.
\<close>

datatype 'v action =
    PrintByte byte
  | PrintDec cint
  | PrintStr string
  | PrintFloat 'v
  | Delay nat
  | Call ref "'v Event"

record 'v LCDMenuParameter =
  p_name :: string
  p_id :: cint
  p_value :: 'v
  p_inc :: 'v
  p_display_float :: bool
  p_setValueCallback :: ptr

record 'v LCDMenuButton = "'v LCDMenuParameter" +
  b_num_states :: cint
  b_state :: cint
  b_state_values :: "string list"

section \<open>LCDMenuParameter\<close>

text \<open>
  \<open>this\<close> is the address of the object the method is called on, \<open>now\<close> what
  \<^verbatim>\<open>millis()\<close> returns when the method reads the clock. The methods of the base class
  are not virtual and work on the base fields of any object, a button as well: they
  are defined on the record scheme.
\<close>

definition LCDMenuParameter_getValue :: "('v, 'a) LCDMenuParameter_scheme \<Rightarrow> 'v" where
  "LCDMenuParameter_getValue p = p_value p"

definition LCDMenuParameter_getName :: "('v, 'a) LCDMenuParameter_scheme \<Rightarrow> string" where
  "LCDMenuParameter_getName p = p_name p"

definition LCDMenuParameter_setValue ::
  "'v float_ops \<Rightarrow> ref \<Rightarrow> ulong \<Rightarrow> ('v, 'a) LCDMenuParameter_scheme \<Rightarrow> 'v
    \<Rightarrow> ('v, 'a) LCDMenuParameter_scheme \<times> 'v action list" where
  "LCDMenuParameter_setValue F this now p new_value =
     (if f_ne F (p_value p) new_value then
        (p\<lparr>p_value := new_value\<rparr>,
         case p_setValueCallback p of
           None \<Rightarrow> []
         | Some cb \<Rightarrow>
             [Call cb \<lparr>e_source = p_id p, e_time = now,
                       e_value = FloatVal new_value, e_object = this\<rparr>])
      else (p, []))"

definition LCDMenuParameter_incValue ::
  "'v float_ops \<Rightarrow> ref \<Rightarrow> ulong \<Rightarrow> ('v, 'a) LCDMenuParameter_scheme \<Rightarrow> 'v
    \<Rightarrow> ('v, 'a) LCDMenuParameter_scheme \<times> 'v action list" where
  "LCDMenuParameter_incValue F this now p steps =
     LCDMenuParameter_setValue F this now p (f_add F (p_value p) (f_mul F (p_inc p) steps))"

definition LCDMenuParameter_registerSetValueCallback ::
  "ptr \<Rightarrow> ('v, 'a) LCDMenuParameter_scheme \<Rightarrow> ('v, 'a) LCDMenuParameter_scheme" where
  "LCDMenuParameter_registerSetValueCallback newCallback p =
     p\<lparr>p_setValueCallback := newCallback\<rparr>"

section \<open>LCDMenuButton\<close>

definition validState :: "'v LCDMenuButton \<Rightarrow> cint \<Rightarrow> bool" where
  "validState b s = (0 \<le>s s \<and> s <s b_num_states b)"

definition LCDMenuButton_setValue ::
  "ref \<Rightarrow> ulong \<Rightarrow> 'v LCDMenuButton \<Rightarrow> cint \<Rightarrow> 'v LCDMenuButton \<times> 'v action list" where
  "LCDMenuButton_setValue this now b new_value =
     (if b_state b \<noteq> new_value \<and> validState b new_value then
        (b\<lparr>b_state := new_value\<rparr>,
         case p_setValueCallback b of
           None \<Rightarrow> []
         | Some cb \<Rightarrow>
             [Call cb \<lparr>e_source = p_id b, e_time = now,
                       e_value = IntVal new_value, e_object = this\<rparr>])
      else if \<not> validState b (b_state b) then (b\<lparr>b_state := 0\<rparr>, [])
      else (b, []))"

text \<open>
  \<^verbatim>\<open>incValue\<close> calls itself while \<^verbatim>\<open>_state + steps >= _num_states\<close>. Nothing in the
  code bounds the number of calls, so the model is a partial function: \<open>None\<close> is a
  recursion that never ends.
\<close>

partial_function (option) LCDMenuButton_incValue ::
  "ref \<Rightarrow> ulong \<Rightarrow> 'v LCDMenuButton \<Rightarrow> cint \<Rightarrow> ('v LCDMenuButton \<times> 'v action list) option" where
  "LCDMenuButton_incValue this now b steps =
     (if b_num_states b \<le>s b_state b + steps then
        LCDMenuButton_incValue this now b (b_state b + steps - b_num_states b)
      else if b_state b + steps <s 0 then
        Some (LCDMenuButton_setValue this now b (b_num_states b - 1 - (b_state b + steps)))
      else Some (LCDMenuButton_setValue this now b (b_state b + steps)))"

section \<open>Pointers and objects\<close>

text \<open>
  What the language leaves undefined is an error value of the model: a call through
  \<^verbatim>\<open>NULL\<close>, a call through an address that holds no object, an index outside an
  array, and the use of the buffer that \<^verbatim>\<open>LCDMenuParameter::getDisplayValue\<close> returns
  (the address of a local array that no longer exists).
\<close>

datatype error = NullPointer | InvalidPointer | OutOfBounds | DanglingBuffer

datatype 'v obj = Parameter "'v LCDMenuParameter" | Button "'v LCDMenuButton"

definition deref :: "ptr \<Rightarrow> (ref \<rightharpoonup> 'a) \<Rightarrow> error + 'a" where
  "deref p store =
     (case p of
        None \<Rightarrow> Inl NullPointer
      | Some a \<Rightarrow> (case store a of None \<Rightarrow> Inl InvalidPointer | Some x \<Rightarrow> Inr x))"

text \<open>
  The constructor \<^verbatim>\<open>LCDMenuParameter() { }\<close> assigns no field: the object keeps what
  its memory held before, here \<open>raw\<close>.
\<close>

definition LCDMenuParameter_default :: "'v LCDMenuParameter \<Rightarrow> 'v LCDMenuParameter" where
  "LCDMenuParameter_default raw = raw"

text \<open>The calls made through a \<^verbatim>\<open>LCDMenuParameter*\<close>; the last two are virtual.\<close>

fun obj_getName :: "'v obj \<Rightarrow> string" where
  "obj_getName (Parameter p) = LCDMenuParameter_getName p"
| "obj_getName (Button b) = LCDMenuParameter_getName b"

fun obj_getValue :: "'v obj \<Rightarrow> 'v" where
  "obj_getValue (Parameter p) = LCDMenuParameter_getValue p"
| "obj_getValue (Button b) = LCDMenuParameter_getValue b"

fun obj_incValue :: "'v float_ops \<Rightarrow> ref \<Rightarrow> ulong \<Rightarrow> 'v obj \<Rightarrow> 'v \<Rightarrow> 'v obj \<times> 'v action list" where
  "obj_incValue F this now (Parameter p) steps =
     (case LCDMenuParameter_incValue F this now p steps of (p', acts) \<Rightarrow> (Parameter p', acts))"
| "obj_incValue F this now (Button b) steps =
     (case LCDMenuParameter_incValue F this now b steps of (b', acts) \<Rightarrow> (Button b', acts))"

fun isFloatValue :: "'v obj \<Rightarrow> bool" where
  "isFloatValue (Parameter p) = True"
| "isFloatValue (Button b) = False"

fun getDisplayValue :: "'v obj \<Rightarrow> error + string" where
  "getDisplayValue (Parameter p) = Inl DanglingBuffer"
| "getDisplayValue (Button b) =
     (if 0 \<le>s b_state b \<and> nat (sint (b_state b)) < length (b_state_values b)
      then Inr (b_state_values b ! nat (sint (b_state b)))
      else Inl OutOfBounds)"

section \<open>LCDMenuSection\<close>

text \<open>
  \<^verbatim>\<open>_params\<close> is an array of 8 pointers: a function from the index to the pointer, read
  and written at the indices 0 to 7 only.
\<close>

record LCDMenuSection =
  s_params :: "nat \<Rightarrow> ptr"
  s_num_params :: cint
  s_index :: cint

definition LCDMenuSection_init :: "LCDMenuSection \<Rightarrow> LCDMenuSection" where
  "LCDMenuSection_init raw = raw\<lparr>s_num_params := 0, s_index := 0\<rparr>"

text \<open>
  \<open>alloc\<close> is what \<^verbatim>\<open>new\<close> gives when it is called: the address of the new object and
  what its memory holds.
\<close>

definition getCurrentParameter ::
  "ref \<times> 'v LCDMenuParameter \<Rightarrow> LCDMenuSection \<Rightarrow> (ref \<rightharpoonup> 'v obj)
    \<Rightarrow> error + (ptr \<times> (ref \<rightharpoonup> 'v obj))" where
  "getCurrentParameter alloc s objs =
     (if 0 \<le>s s_index s \<and> s_index s <s s_num_params s then
        (if s_index s <s 8 then Inr (s_params s (nat (sint (s_index s))), objs)
         else Inl OutOfBounds)
      else
        Inr (Some (fst alloc),
             objs(fst alloc \<mapsto> Parameter (LCDMenuParameter_default (snd alloc)))))"

definition addParameter :: "ptr \<Rightarrow> LCDMenuSection \<Rightarrow> error + LCDMenuSection" where
  "addParameter new_param s =
     (if s_num_params s <s 8 then
        (if 0 \<le>s s_num_params s then
           Inr (s\<lparr>s_params := (s_params s)(nat (sint (s_num_params s)) := new_param),
                  s_num_params := s_num_params s + 1\<rparr>)
         else Inl OutOfBounds)
      else Inr s)"

definition LCDMenuSection_nextItem :: "LCDMenuSection \<Rightarrow> LCDMenuSection" where
  "LCDMenuSection_nextItem s =
     (if s_index s <s s_num_params s - 1 then s\<lparr>s_index := s_index s + 1\<rparr>
      else s\<lparr>s_index := 0\<rparr>)"

definition LCDMenuSection_prevItem :: "LCDMenuSection \<Rightarrow> LCDMenuSection" where
  "LCDMenuSection_prevItem s =
     (if 0 <s s_index s then s\<lparr>s_index := s_index s - 1\<rparr>
      else s\<lparr>s_index := s_num_params s - 1\<rparr>)"

datatype nav = Next | Prev

fun navigate :: "nav \<Rightarrow> LCDMenuSection \<Rightarrow> LCDMenuSection" where
  "navigate Next s = LCDMenuSection_nextItem s"
| "navigate Prev s = LCDMenuSection_prevItem s"

fun navigate_all :: "nav list \<Rightarrow> LCDMenuSection \<Rightarrow> LCDMenuSection" where
  "navigate_all [] s = s"
| "navigate_all (c # cs) s = navigate_all cs (navigate c s)"

section \<open>LCDMenu\<close>

text \<open>
  The fields of the \<^verbatim>\<open>LCDMenu\<close> object, and around them the world its methods work
  in: the two stores and the trace of everything done so far on the serial line.
\<close>

record LCDMenu =
  m_index :: cint
  m_dirty :: bool
  m_dirt :: "nat \<Rightarrow> bool"
  m_is_asleep :: bool
  m_sleep_timeout :: cint
  m_last_activity_time :: ulong
  m_root :: ptr
  m_cur_section :: ptr

record 'v world = LCDMenu +
  sections :: "ref \<rightharpoonup> LCDMenuSection"
  objects :: "ref \<rightharpoonup> 'v obj"
  trace :: "'v action list"

definition emit :: "'v action list \<Rightarrow> 'v world \<Rightarrow> 'v world" where
  "emit acts w = w\<lparr>trace := trace w @ acts\<rparr>"

definition selectLineOne :: "'v world \<Rightarrow> 'v world" where
  "selectLineOne w = emit [PrintByte 0xFE, PrintByte 128, Delay 10] w"

definition selectLineTwo :: "'v world \<Rightarrow> 'v world" where
  "selectLineTwo w = emit [PrintByte 0xFE, PrintByte 192, Delay 10] w"

definition LCDCommand :: "'v world \<Rightarrow> 'v world" where
  "LCDCommand w = emit [PrintByte 0xFE] w"

definition clearLCD :: "'v world \<Rightarrow> 'v world" where
  "clearLCD w = emit [PrintByte 0x01, Delay 10] (LCDCommand w)"

definition backlightOn :: "'v world \<Rightarrow> 'v world" where
  "backlightOn w = emit [PrintByte 0x7C, PrintByte 157, Delay 10] w"

definition backlightOff :: "'v world \<Rightarrow> 'v world" where
  "backlightOff w = emit [PrintByte 0x7C, PrintByte 128, Delay 10] w"

definition screenSize :: "cint \<Rightarrow> 'v world \<Rightarrow> 'v world" where
  "screenSize size' w = emit [PrintByte 0x7C, PrintDec size', Delay 10] w"

definition stayAwake :: "ulong \<Rightarrow> 'v world \<Rightarrow> 'v world" where
  "stayAwake now w =
     (let w1 = (if m_is_asleep w then (backlightOn w)\<lparr>m_is_asleep := False\<rparr> else w)
      in w1\<lparr>m_last_activity_time := now\<rparr>)"

definition sleep :: "'v world \<Rightarrow> 'v world" where
  "sleep w = (backlightOff w)\<lparr>m_is_asleep := True\<rparr>"

definition setDirty :: "ulong \<Rightarrow> bool \<Rightarrow> cint \<Rightarrow> 'v world \<Rightarrow> 'v world" where
  "setDirty now is_dirty row w =
     (let w1 = w\<lparr>m_dirty := is_dirty\<rparr>;
          w2 = (if row \<le>s 0 then w1\<lparr>m_dirt := (m_dirt w1)(0 := is_dirty, 1 := is_dirty)\<rparr>
                else w1\<lparr>m_dirt := (m_dirt w1)
                        ((if row \<le>s 2 then nat (sint (row - 1)) else 1) := is_dirty)\<rparr>)
      in stayAwake now w2)"

text \<open>
  \<^verbatim>\<open>printMenu\<close> compares the \<^verbatim>\<open>unsigned long\<close> difference of two clock readings with
  the \<^verbatim>\<open>int\<close> \<^verbatim>\<open>_sleep_timeout\<close>: the language converts the \<^verbatim>\<open>int\<close> to
  \<^verbatim>\<open>unsigned long\<close> first (\<open>scast\<close>).
\<close>

definition printMenu :: "ulong \<Rightarrow> ref \<times> 'v LCDMenuParameter \<Rightarrow> 'v world \<Rightarrow> error + 'v world" where
  "printMenu now alloc w =
     (if m_dirty w then
        (let w1 = w\<lparr>m_dirty := False\<rparr>;
             w2 = (if m_dirt w1 0 \<and> m_dirt w1 1 then clearLCD w1 else w1)
         in case deref (m_cur_section w2) (sections w2) of
              Inl e \<Rightarrow> Inl e
            | Inr sec \<Rightarrow>
               (case getCurrentParameter alloc sec (objects w2) of
                  Inl e \<Rightarrow> Inl e
                | Inr (cur_param, objs) \<Rightarrow>
                   (let w3 = w2\<lparr>objects := objs\<rparr> in
                    case (if m_dirt w3 0 then
                            (case deref cur_param (objects w3) of
                               Inl e \<Rightarrow> Inl e
                             | Inr ob \<Rightarrow>
                                Inr ((emit [PrintStr (obj_getName ob)] (selectLineOne w3))
                                       \<lparr>m_dirt := (m_dirt w3)(0 := False)\<rparr>))
                          else Inr w3) of
                      Inl e \<Rightarrow> Inl e
                    | Inr w4 \<Rightarrow>
                       (if m_dirt w4 1 then
                          (case deref cur_param (objects w4) of
                             Inl e \<Rightarrow> Inl e
                           | Inr ob \<Rightarrow>
                              (if isFloatValue ob then
                                 Inr ((emit [PrintFloat (obj_getValue ob)] (selectLineTwo w4))
                                        \<lparr>m_dirt := (m_dirt w4)(1 := False)\<rparr>)
                               else
                                 (case getDisplayValue ob of
                                    Inl e \<Rightarrow> Inl e
                                  | Inr str \<Rightarrow>
                                     Inr ((emit [PrintStr str] (selectLineTwo w4))
                                            \<lparr>m_dirt := (m_dirt w4)(1 := False)\<rparr>))))
                        else Inr w4))))
      else if scast (m_sleep_timeout w) < now - m_last_activity_time w then Inr (sleep w)
      else Inr w)"

definition LCDMenu_nextItem :: "ulong \<Rightarrow> 'v world \<Rightarrow> error + 'v world" where
  "LCDMenu_nextItem now w =
     (case m_cur_section w of
        None \<Rightarrow> Inl NullPointer
      | Some r \<Rightarrow>
         (case sections w r of
            None \<Rightarrow> Inl InvalidPointer
          | Some sec \<Rightarrow>
             Inr (setDirty now True 0
                    (w\<lparr>sections := (sections w)(r \<mapsto> LCDMenuSection_nextItem sec)\<rparr>))))"

definition LCDMenu_prevItem :: "ulong \<Rightarrow> 'v world \<Rightarrow> error + 'v world" where
  "LCDMenu_prevItem now w =
     (case m_cur_section w of
        None \<Rightarrow> Inl NullPointer
      | Some r \<Rightarrow>
         (case sections w r of
            None \<Rightarrow> Inl InvalidPointer
          | Some sec \<Rightarrow>
             Inr (setDirty now True 0
                    (w\<lparr>sections := (sections w)(r \<mapsto> LCDMenuSection_prevItem sec)\<rparr>))))"

text \<open>
  \<^verbatim>\<open>incCurrentParam\<close> reads the clock twice: \<open>t_event\<close> is the reading inside
  \<^verbatim>\<open>setValue\<close>, \<open>now\<close> the one inside \<^verbatim>\<open>stayAwake\<close>. The call goes through a
  \<^verbatim>\<open>LCDMenuParameter*\<close> and \<^verbatim>\<open>incValue\<close> is not virtual, so it is the base class's.
\<close>

definition incCurrentParam ::
  "'v float_ops \<Rightarrow> ulong \<Rightarrow> ulong \<Rightarrow> ref \<times> 'v LCDMenuParameter \<Rightarrow> 'v \<Rightarrow> 'v world
    \<Rightarrow> error + 'v world" where
  "incCurrentParam F t_event now alloc inc w =
     (case deref (m_cur_section w) (sections w) of
        Inl e \<Rightarrow> Inl e
      | Inr sec \<Rightarrow>
         (case getCurrentParameter alloc sec (objects w) of
            Inl e \<Rightarrow> Inl e
          | Inr (cur_param, objs) \<Rightarrow>
             (case cur_param of
                None \<Rightarrow> Inl NullPointer
              | Some a \<Rightarrow>
                 (case objs a of
                    None \<Rightarrow> Inl InvalidPointer
                  | Some ob \<Rightarrow>
                     (case obj_incValue F a t_event ob inc of
                        (ob', acts) \<Rightarrow>
                          Inr (setDirty now True 2
                                 (emit acts (w\<lparr>objects := objs(a \<mapsto> ob')\<rparr>))))))))"

definition addSection :: "ulong \<Rightarrow> ptr \<Rightarrow> ptr \<Rightarrow> 'v world \<Rightarrow> 'v world" where
  "addSection now section parent w =
     (let w1 = w\<lparr>m_cur_section := section\<rparr>;
          w2 = (if m_root w1 = None then w1\<lparr>m_root := section\<rparr> else w1)
      in setDirty now True 0 w2)"

text \<open>The constructor \<^verbatim>\<open>LCDMenu()\<close>, on the memory \<open>raw\<close> of the new object.\<close>

definition LCDMenu_init :: "ulong \<Rightarrow> 'v world \<Rightarrow> 'v world" where
  "LCDMenu_init now raw =
     setDirty now True 0
       (screenSize 5
          (backlightOn
             (clearLCD
                (raw\<lparr>m_root := None, m_cur_section := None, m_is_asleep := False,
                     m_sleep_timeout := 30 * 1000\<rparr>))))"

text \<open>The public operations of the controller, and a sequence of calls of them.\<close>

datatype 'v call =
    SetDirty ulong bool cint
  | PrintMenu ulong "ref \<times> 'v LCDMenuParameter"
  | NextItem ulong
  | PrevItem ulong
  | IncCurrentParam ulong ulong "ref \<times> 'v LCDMenuParameter" 'v
  | AddSection ulong ptr ptr

fun perform :: "'v float_ops \<Rightarrow> 'v call \<Rightarrow> 'v world \<Rightarrow> error + 'v world" where
  "perform F (SetDirty now is_dirty row) w = Inr (setDirty now is_dirty row w)"
| "perform F (PrintMenu now alloc) w = printMenu now alloc w"
| "perform F (NextItem now) w = LCDMenu_nextItem now w"
| "perform F (PrevItem now) w = LCDMenu_prevItem now w"
| "perform F (IncCurrentParam t_event now alloc inc) w = incCurrentParam F t_event now alloc inc w"
| "perform F (AddSection now section parent) w = Inr (addSection now section parent w)"

fun perform_all :: "'v float_ops \<Rightarrow> 'v call list \<Rightarrow> 'v world \<Rightarrow> error + 'v world" where
  "perform_all F [] w = Inr w"
| "perform_all F (c # cs) w =
     (case perform F c w of Inl e \<Rightarrow> Inl e | Inr w' \<Rightarrow> perform_all F cs w')"

text \<open>A call \<^verbatim>\<open>setDirty(false, row)\<close> with \<^verbatim>\<open>row > 0\<close>.\<close>

fun clears_one_row :: "'v call \<Rightarrow> bool" where
  "clears_one_row (SetDirty now is_dirty row) = (\<not> is_dirty \<and> 0 <s row)"
| "clears_one_row c = False"

section \<open>Example objects\<close>

text \<open>
  The objects the theorems below are tried on. Whole numbers stand for the floats; the
  three operations on them are the usual ones.
\<close>

definition int_ops :: "int float_ops" where
  "int_ops = \<lparr>f_ne = (\<lambda>a b. a \<noteq> b), f_add = (\<lambda>a b. a + b), f_mul = (\<lambda>a b. a * b)\<rparr>"

definition speed :: "int LCDMenuParameter" where
  "speed = \<lparr>p_name = ''Speed'', p_id = 3, p_value = 10, p_inc = 2, p_display_float = True,
     p_setValueCallback = Some 200\<rparr>"

definition junk :: "int LCDMenuParameter" where
  "junk = \<lparr>p_name = ''?'', p_id = - 1, p_value = 42, p_inc = 0, p_display_float = True,
     p_setValueCallback = Some 57005\<rparr>"

definition button4 :: "int LCDMenuButton" where
  "button4 = \<lparr>p_name = ''Mode'', p_id = 7, p_value = 0, p_inc = 0, p_display_float = False,
     p_setValueCallback = Some 100, b_num_states = 4, b_state = 0,
     b_state_values = [''A'', ''B'', ''C'', ''D'']\<rparr>"

definition section3 :: LCDMenuSection where
  "section3 = \<lparr>s_params = (\<lambda>i. if i < 3 then Some (10 + i) else None),
     s_num_params = 3, s_index = 0\<rparr>"

definition section8 :: LCDMenuSection where
  "section8 = \<lparr>s_params = (\<lambda>i. Some (10 + i)), s_num_params = 8, s_index = 0\<rparr>"

definition world0 :: "int world" where
  "world0 = \<lparr>m_index = 0, m_dirty = False, m_dirt = (\<lambda>i. False), m_is_asleep = False,
     m_sleep_timeout = 30000, m_last_activity_time = 0, m_root = Some 1, m_cur_section = Some 1,
     sections = [1 \<mapsto> section3],
     objects = [10 \<mapsto> Parameter speed, 11 \<mapsto> Button button4, 12 \<mapsto> Parameter speed],
     trace = []\<rparr>"

definition world1 :: "int world" where
  "world1 = world0\<lparr>sections := [1 \<mapsto> section3\<lparr>s_index := 1\<rparr>]\<rparr>"

section \<open>Arithmetic of 16-bit ints\<close>

lemma sint16_range: "- 32768 \<le> sint (a::cint) \<and> sint a < 32768"
  using sint_ge [of a] sint_lt [of a] by simp

lemma sint_add_small:
  fixes a b :: cint
  assumes "- 32768 \<le> sint a + sint b" "sint a + sint b < 32768"
  shows "sint (a + b) = sint a + sint b"
  using assms by (simp add: sint_word_ariths signed_take_bit_int_eq_self)

lemma sint_sub_small:
  fixes a b :: cint
  assumes "- 32768 \<le> sint a - sint b" "sint a - sint b < 32768"
  shows "sint (a - b) = sint a - sint b"
  using assms by (simp add: sint_word_ariths signed_take_bit_int_eq_self)

lemma sint_pred:
  fixes n :: cint
  assumes "0 < sint n"
  shows "sint (n - 1) = sint n - 1"
  using assms sint16_range [of n] by (intro sint_sub_small [of n 1, simplified]) linarith+

lemma sint_succ:
  fixes i n :: cint
  assumes "sint i < sint n - 1"
  shows "sint (i + 1) = sint i + 1"
  using assms sint16_range [of i] sint16_range [of n]
  by (intro sint_add_small [of i 1, simplified]) linarith+

text \<open>A subtraction of two ints is exact or off by one full turn of the 16 bits.\<close>

lemma sint_sub_cases:
  fixes a b :: cint
  shows "sint (a - b) = sint a - sint b \<or> sint (a - b) = sint a - sint b - 65536
     \<or> sint (a - b) = sint a - sint b + 65536"
proof -
  have "sint (a - b) = signed_take_bit 15 (sint a - sint b)"
    by (simp add: sint_word_ariths)
  also have "\<dots> = take_bit 16 (sint a - sint b + 32768) - 32768"
    by (simp add: signed_take_bit_eq_take_bit_shift)
  also have "\<dots> = (sint a - sint b + 32768) mod 65536 - 32768"
    by (simp add: take_bit_eq_mod)
  finally have e: "sint (a - b) = (sint a - sint b + 32768) mod 65536 - 32768" .
  define k where "k = sint a - sint b + 32768"
  have r: "- 32767 \<le> k \<and> k \<le> 98303"
    using sint16_range [of a] sint16_range [of b] unfolding k_def by linarith
  have "k mod 65536 = k \<or> k mod 65536 = k + 65536 \<or> k mod 65536 = k - 65536"
  proof -
    consider "k < 0" | "0 \<le> k \<and> k < 65536" | "65536 \<le> k" by linarith
    then show ?thesis
    proof cases
      case 1
      have "(k + 65536) mod 65536 = k + 65536"
        using 1 r by (intro mod_pos_pos_trivial) linarith+
      then show ?thesis by simp
    next
      case 2
      then have "k mod 65536 = k" by (intro mod_pos_pos_trivial) linarith+
      then show ?thesis by simp
    next
      case 3
      have "(k - 65536) mod 65536 = k - 65536"
        using 3 r by (intro mod_pos_pos_trivial) linarith+
      then show ?thesis by simp
    qed
  qed
  with e show ?thesis unfolding k_def by linarith
qed

lemma row_1_or_2:
  fixes row :: cint
  assumes "\<not> row \<le>s 0" "row \<le>s 2"
  shows "row = 1 \<or> row = 2"
proof -
  have "sint row = 1 \<or> sint row = 2"
    using assms by (simp add: word_sle_eq) linarith
  moreover have "row = 1" if "sint row = 1"
  proof -
    from that have "word_of_int (sint row) = (word_of_int 1 :: cint)" by (simp only:)
    then show ?thesis by simp
  qed
  moreover have "row = 2" if "sint row = 2"
  proof -
    from that have "word_of_int (sint row) = (word_of_int 2 :: cint)" by (simp only:)
    then show ?thesis by simp
  qed
  ultimately show ?thesis by blast
qed

text \<open>
  The conversion of a timeout that is not negative to \<^verbatim>\<open>unsigned long\<close> keeps its
  value, and the comparison in \<^verbatim>\<open>printMenu\<close> is the comparison of the two numbers.
\<close>

lemma scast_timeout:
  fixes t :: cint
  assumes "0 \<le>s t"
  shows "uint (scast t :: ulong) = sint t"
proof -
  have r: "0 \<le> sint t" "sint t < 32768"
    using assms sint_lt [of t] by (simp_all add: word_sle_eq)
  have "uint (scast t :: ulong) = uint (word_of_int (sint t) :: ulong)"
    by (simp only: scast_eq)
  also have "\<dots> = take_bit 32 (sint t)"
    by (simp only: uint_word_of_int_eq len_num1 len_bit0 mult_numeral_1_right
        numeral_times_numeral semiring_norm)
  also have "\<dots> = sint t"
    using r by (simp add: take_bit_int_eq_self)
  finally show ?thesis .
qed

lemma sleeps_iff:
  fixes t :: cint and e :: ulong
  assumes "0 \<le>s t"
  shows "(scast t < e) = (sint t < uint e)"
  using scast_timeout [OF assms] by (simp add: word_less_def)

section \<open>The numeric parameter\<close>

text \<open>
  C2. A numeric parameter with a registered callback: \<^verbatim>\<open>setValue(v)\<close> with \<open>v\<close> equal to
  the current value calls nothing, and with \<open>v\<close> different from it calls the registered
  callback exactly once, with an event whose value field is \<open>v\<close>. Equal and different
  are what the comparison \<^verbatim>\<open>!=\<close> of the language says of the two floats.
\<close>

theorem setValue_callback_once:
  assumes "p_setValueCallback p = Some cb"
  shows "(\<not> f_ne F (p_value p) v \<longrightarrow> snd (LCDMenuParameter_setValue F this now p v) = []) \<and>
         (f_ne F (p_value p) v \<longrightarrow>
            (\<exists>ev. snd (LCDMenuParameter_setValue F this now p v) = [Call cb ev] \<and>
                  e_value ev = FloatVal v))"
  using assms by (simp add: LCDMenuParameter_setValue_def)

theorem setValue_callback_once_witness:
  "p_setValueCallback speed = Some 200 \<and>
   \<not> f_ne int_ops (p_value speed) 10 \<and> f_ne int_ops (p_value speed) 12 \<and>
   snd (LCDMenuParameter_setValue int_ops 1 5 speed 10) = [] \<and>
   (\<exists>ev. snd (LCDMenuParameter_setValue int_ops 1 5 speed 12) = [Call 200 ev] \<and>
         e_value ev = FloatVal 12)"
  using setValue_callback_once [of speed 200 int_ops 10 1 5]
    setValue_callback_once [of speed 200 int_ops 12 1 5]
  by (simp add: speed_def int_ops_def)

section \<open>The enumerated parameter\<close>

text \<open>
  One call of \<^verbatim>\<open>incValue\<close> that goes on to call itself does so with a sum
  \<^verbatim>\<open>_state + steps\<close> that is smaller than before and not negative.
\<close>

lemma incValue_step_decreases:
  fixes st n steps :: cint
  assumes "0 \<le> sint st" "sint st < sint n" "sint n \<le> sint (st + steps)"
  shows "0 \<le> sint (st + (st + steps - n)) \<and> sint (st + (st + steps - n)) < sint (st + steps)"
proof -
  have r: "sint (st + steps) < 32768" using sint16_range by blast
  have d: "sint (st + steps - n) = sint (st + steps) - sint n"
    using assms r by (intro sint_sub_small) linarith+
  have "sint (st + (st + steps - n)) = sint st + sint (st + steps - n)"
    using assms r d by (intro sint_add_small) linarith+
  with d assms show ?thesis by linarith
qed

text \<open>
  C8. An enumerated parameter whose state is in \<open>[0, state_count)\<close>, with
  \<open>state_count \<ge> 1\<close>: \<^verbatim>\<open>incValue(steps)\<close> returns for every int \<open>steps\<close>, also where
  \<^verbatim>\<open>_state + steps\<close> wraps around.
\<close>

theorem incValue_terminates:
  assumes "0 \<le>s b_state b" "b_state b <s b_num_states b" "1 \<le>s b_num_states b"
  shows "\<exists>r. LCDMenuButton_incValue this now b steps = Some r"
proof (induction "nat (sint (b_state b + steps))" arbitrary: steps rule: less_induct)
  case less
  show ?case
  proof (cases "b_num_states b \<le>s b_state b + steps")
    case True
    let ?steps' = "b_state b + steps - b_num_states b"
    have "0 \<le> sint (b_state b + ?steps') \<and>
        sint (b_state b + ?steps') < sint (b_state b + steps)"
      using assms True
      by (intro incValue_step_decreases) (simp_all add: word_sle_eq word_sless_alt)
    then have "nat (sint (b_state b + ?steps')) < nat (sint (b_state b + steps))"
      by linarith
    then obtain r where "LCDMenuButton_incValue this now b ?steps' = Some r"
      using less by blast
    with True show ?thesis
      by (subst LCDMenuButton_incValue.simps) simp
  next
    case False
    then show ?thesis
      by (subst LCDMenuButton_incValue.simps) simp
  qed
qed

theorem incValue_terminates_witness:
  "0 \<le>s b_state (button4\<lparr>b_state := 3\<rparr>) \<and>
   b_state (button4\<lparr>b_state := 3\<rparr>) <s b_num_states (button4\<lparr>b_state := 3\<rparr>) \<and>
   1 \<le>s b_num_states (button4\<lparr>b_state := 3\<rparr>) \<and>
   (\<exists>r. LCDMenuButton_incValue 0 0 (button4\<lparr>b_state := 3\<rparr>) 32767 = Some r) \<and>
   (\<exists>r. LCDMenuButton_incValue 0 0 (button4\<lparr>b_state := 3\<rparr>) 30001 = Some r)"
  using incValue_terminates [of "button4\<lparr>b_state := 3\<rparr>" 0 0 32767]
    incValue_terminates [of "button4\<lparr>b_state := 3\<rparr>" 0 0 30001]
  by (simp add: button4_def word_sle_eq word_sless_alt)

text \<open>
  The branch of \<^verbatim>\<open>incValue\<close> for a negative sum asks \<^verbatim>\<open>setValue\<close> for the state
  \<^verbatim>\<open>_num_states - 1 - (_state + steps)\<close>. That state is never a valid one, so a button
  in a valid state is left as it is and no callback is called.
\<close>

lemma wrap_down_invalid:
  fixes n s :: cint
  assumes "0 < sint n" "sint s < 0"
  shows "\<not> (0 \<le> sint (n - 1 - s) \<and> sint (n - 1 - s) < sint n)"
proof -
  have p: "sint (n - 1) = sint n - 1"
    using assms(1) by (rule sint_pred)
  from sint_sub_cases [of "n - 1" s] p sint16_range [of "n - 1 - s"] sint16_range [of s]
    sint16_range [of n] assms
  show ?thesis by linarith
qed

lemma wrap_down_never_lands:
  assumes "validState b (b_state b)" "b_state b + steps <s 0"
  shows "LCDMenuButton_incValue this now b steps = Some (b, [])"
proof -
  from assms(1) have n: "0 < sint (b_num_states b)"
    by (simp add: validState_def word_sle_eq word_sless_alt)
  from assms(2) have s: "sint (b_state b + steps) < 0"
    by (simp add: word_sless_alt)
  from n s have up: "\<not> b_num_states b \<le>s b_state b + steps"
    by (simp add: word_sle_eq)
  from wrap_down_invalid [OF n s]
  have inv: "\<not> validState b (b_num_states b - 1 - (b_state b + steps))"
    by (simp add: validState_def word_sle_eq word_sless_alt)
  from up assms inv show ?thesis
    by (subst LCDMenuButton_incValue.simps) (simp add: LCDMenuButton_setValue_def)
qed

text \<open>
  C1. A button with 4 states in state 0. \<^verbatim>\<open>incValue(5)\<close> lands on state 1, through one
  subtraction of the state count. \<^verbatim>\<open>incValue(-1)\<close> does not land on state 3: it asks
  for state \<open>4 - 1 - (-1) = 4\<close>, which is not valid, and the button stays in state 0
  with no callback called.
\<close>

theorem incValue_wraps_up_not_down:
  "b_num_states button4 = 4 \<and> b_state button4 = 0 \<and>
   LCDMenuButton_incValue 0 0 button4 (- 1) = Some (button4, []) \<and>
   LCDMenuButton_incValue 0 0 button4 5 =
     Some (button4\<lparr>b_state := 1\<rparr>,
           [Call 100 \<lparr>e_source = 7, e_time = 0, e_value = IntVal 1, e_object = 0\<rparr>])"
proof -
  have down: "LCDMenuButton_incValue 0 0 button4 (- 1) = Some (button4, [])"
    by (subst LCDMenuButton_incValue.simps)
      (simp add: button4_def LCDMenuButton_setValue_def validState_def word_sle_eq word_sless_alt)
  have "LCDMenuButton_incValue 0 0 button4 5 = LCDMenuButton_incValue 0 0 button4 1"
    by (subst LCDMenuButton_incValue.simps) (simp add: button4_def word_sle_eq word_sless_alt)
  also have "\<dots> = Some (button4\<lparr>b_state := 1\<rparr>,
           [Call 100 \<lparr>e_source = 7, e_time = 0, e_value = IntVal 1, e_object = 0\<rparr>])"
    by (subst LCDMenuButton_incValue.simps)
      (simp add: button4_def LCDMenuButton_setValue_def validState_def word_sle_eq word_sless_alt)
  finally show ?thesis using down by (simp add: button4_def)
qed

section \<open>The section\<close>

lemma nextItem_keeps:
  assumes "0 \<le>s s_index s" "s_index s <s s_num_params s"
  shows "0 \<le>s s_index (LCDMenuSection_nextItem s) \<and>
         s_index (LCDMenuSection_nextItem s) <s s_num_params (LCDMenuSection_nextItem s) \<and>
         s_num_params (LCDMenuSection_nextItem s) = s_num_params s"
proof -
  have n: "0 < sint (s_num_params s)" using assms by (simp add: word_sle_eq word_sless_alt)
  show ?thesis
  proof (cases "s_index s <s s_num_params s - 1")
    case True
    then have lt: "sint (s_index s) < sint (s_num_params s) - 1"
      using n by (simp add: word_sless_alt sint_pred)
    then have "sint (s_index s + 1) = sint (s_index s) + 1" by (rule sint_succ)
    with True lt assms show ?thesis
      by (simp add: LCDMenuSection_nextItem_def word_sle_eq word_sless_alt)
  next
    case False
    with n show ?thesis
      by (simp add: LCDMenuSection_nextItem_def word_sle_eq word_sless_alt)
  qed
qed

lemma prevItem_keeps:
  assumes "0 \<le>s s_index s" "s_index s <s s_num_params s"
  shows "0 \<le>s s_index (LCDMenuSection_prevItem s) \<and>
         s_index (LCDMenuSection_prevItem s) <s s_num_params (LCDMenuSection_prevItem s) \<and>
         s_num_params (LCDMenuSection_prevItem s) = s_num_params s"
proof -
  have n: "0 < sint (s_num_params s)" using assms by (simp add: word_sle_eq word_sless_alt)
  show ?thesis
  proof (cases "0 <s s_index s")
    case True
    then have "0 < sint (s_index s)" by (simp add: word_sless_alt)
    then have "sint (s_index s - 1) = sint (s_index s) - 1" by (rule sint_pred)
    with True assms show ?thesis
      by (simp add: LCDMenuSection_prevItem_def word_sle_eq word_sless_alt)
  next
    case False
    with n show ?thesis
      by (simp add: LCDMenuSection_prevItem_def word_sle_eq word_sless_alt sint_pred)
  qed
qed

lemma navigate_all_keeps:
  assumes "0 \<le>s s_index s" "s_index s <s s_num_params s"
  shows "0 \<le>s s_index (navigate_all cs s) \<and>
         s_index (navigate_all cs s) <s s_num_params (navigate_all cs s) \<and>
         s_num_params (navigate_all cs s) = s_num_params s"
  using assms
proof (induction cs arbitrary: s)
  case Nil
  then show ?case by simp
next
  case (Cons c cs)
  have step: "0 \<le>s s_index (navigate c s) \<and>
      s_index (navigate c s) <s s_num_params (navigate c s) \<and>
      s_num_params (navigate c s) = s_num_params s"
  proof (cases c)
    case Next
    with nextItem_keeps [OF Cons.prems] show ?thesis by auto
  next
    case Prev
    with prevItem_keeps [OF Cons.prems] show ?thesis by auto
  qed
  from Cons.IH [of "navigate c s"] step show ?case by auto
qed

text \<open>
  C3. A section with \<open>count > 0\<close> and its cursor in \<open>[0, count)\<close>: after any sequence
  of \<^verbatim>\<open>nextItem\<close> and \<^verbatim>\<open>prevItem\<close> calls the cursor is in \<open>[0, count)\<close> and the count
  is what it was; \<^verbatim>\<open>nextItem\<close> from \<open>count - 1\<close> lands on 0 and \<^verbatim>\<open>prevItem\<close> from 0
  lands on \<open>count - 1\<close>.
\<close>

theorem cursor_stays_in_range:
  assumes "0 <s s_num_params s" "0 \<le>s s_index s" "s_index s <s s_num_params s"
  shows "0 \<le>s s_index (navigate_all cs s) \<and> s_index (navigate_all cs s) <s s_num_params s \<and>
         s_num_params (navigate_all cs s) = s_num_params s \<and>
         (s_index s = s_num_params s - 1 \<longrightarrow> s_index (LCDMenuSection_nextItem s) = 0) \<and>
         (s_index s = 0 \<longrightarrow> s_index (LCDMenuSection_prevItem s) = s_num_params s - 1)"
proof -
  have "\<not> (s_num_params s - 1 <s s_num_params s - 1)" by simp
  then have a: "s_index s = s_num_params s - 1 \<longrightarrow> s_index (LCDMenuSection_nextItem s) = 0"
    by (simp add: LCDMenuSection_nextItem_def)
  have b: "s_index s = 0 \<longrightarrow> s_index (LCDMenuSection_prevItem s) = s_num_params s - 1"
    by (simp add: LCDMenuSection_prevItem_def)
  from navigate_all_keeps [OF assms(2,3), of cs] a b show ?thesis by auto
qed

theorem cursor_stays_in_range_witness:
  "0 <s s_num_params section3 \<and> 0 \<le>s s_index section3 \<and>
   s_index section3 <s s_num_params section3 \<and>
   s_index (navigate_all [Prev, Prev, Next, Next, Next] section3) = 1 \<and>
   s_index (LCDMenuSection_prevItem section3) = 2 \<and>
   s_index (LCDMenuSection_nextItem (section3\<lparr>s_index := 2\<rparr>)) = 0"
  using cursor_stays_in_range [of section3 "[Prev, Prev, Next, Next, Next]"]
    cursor_stays_in_range [of "section3\<lparr>s_index := 2\<rparr>" "[]"]
  by (simp add: section3_def LCDMenuSection_prevItem_def LCDMenuSection_nextItem_def
      word_sle_eq word_sless_alt)

text \<open>
  A section with no parameter gets a new object from \<^verbatim>\<open>getCurrentParameter\<close>, with
  the fields that the memory of the allocation held.
\<close>

lemma getCurrentParameter_empty:
  assumes "s_num_params s = 0"
  shows "getCurrentParameter (a, raw) s objs = Inr (Some a, objs(a \<mapsto> Parameter raw))"
  using assms
  by (auto simp add: getCurrentParameter_def LCDMenuParameter_default_def
      word_sle_eq word_sless_alt)

text \<open>
  C9. On an empty section \<^verbatim>\<open>getCurrentParameter\<close> does return an object and not
  \<^verbatim>\<open>NULL\<close>, but its name is not empty and its value is not zero when the memory it
  is built in held something else: here the name \<open>?\<close> and the value 42.
\<close>

theorem getCurrentParameter_empty_uninitialised:
  "s_num_params (LCDMenuSection_init section3) = 0 \<and>
   getCurrentParameter (50, junk) (LCDMenuSection_init section3) Map.empty
     = Inr (Some 50, [50 \<mapsto> Parameter junk]) \<and>
   obj_getName (Parameter junk) = ''?'' \<and> obj_getValue (Parameter junk) = 42"
  by (simp add: getCurrentParameter_def LCDMenuSection_init_def section3_def
      LCDMenuParameter_default_def LCDMenuParameter_getName_def LCDMenuParameter_getValue_def
      junk_def)

text \<open>
  C10. A section that holds 8 parameters: \<^verbatim>\<open>addParameter(p)\<close> returns the section as it
  was, with the same count, the same cursor and the same 8 pointers; \<open>p\<close> is dropped.
\<close>

theorem addParameter_full_noop:
  assumes "s_num_params s = 8"
  shows "addParameter p s = Inr s"
  using assms by (simp add: addParameter_def)

theorem addParameter_full_noop_witness:
  "s_num_params section8 = 8 \<and> addParameter (Some 99) section8 = Inr section8"
  using addParameter_full_noop [of section8 "Some 99"] by (simp add: section8_def)

section \<open>The menu controller\<close>

lemmas lcd_defs = emit_def selectLineOne_def selectLineTwo_def LCDCommand_def clearLCD_def
  backlightOn_def backlightOff_def screenSize_def stayAwake_def sleep_def

subsection \<open>setDirty\<close>

text \<open>
  C7, as the code has it. \<^verbatim>\<open>setDirty(isDirty, row)\<close> with \<open>row \<le> 0\<close>, so with a
  negative row as well as with 0, sets both row flags to \<open>isDirty\<close>; with \<open>row = 1\<close> or
  \<open>row = 2\<close> it sets that row's flag only; a row above 2 is clamped to row 2. Every
  call sets the any-redraw flag to \<open>isDirty\<close> and goes through \<^verbatim>\<open>stayAwake\<close>: the time
  of the last activity is the time of the call and the controller is awake, also when
  \<open>isDirty\<close> is false.
\<close>

theorem setDirty_rows:
  "(row \<le>s 0 \<longrightarrow> m_dirt (setDirty now d row w) 0 = d \<and> m_dirt (setDirty now d row w) 1 = d) \<and>
   (row = 1 \<longrightarrow>
      m_dirt (setDirty now d row w) 0 = d \<and> m_dirt (setDirty now d row w) 1 = m_dirt w 1) \<and>
   (row = 2 \<longrightarrow>
      m_dirt (setDirty now d row w) 1 = d \<and> m_dirt (setDirty now d row w) 0 = m_dirt w 0) \<and>
   (2 <s row \<longrightarrow>
      m_dirt (setDirty now d row w) 1 = d \<and> m_dirt (setDirty now d row w) 0 = m_dirt w 0) \<and>
   m_dirty (setDirty now d row w) = d \<and>
   m_last_activity_time (setDirty now d row w) = now \<and>
   \<not> m_is_asleep (setDirty now d row w)"
  by (simp add: setDirty_def Let_def lcd_defs) (auto simp add: word_sle_eq word_sless_alt)

theorem setDirty_rows_witness:
  "(- 3 :: cint) \<le>s 0 \<and> (2 :: cint) <s 7 \<and>
   m_dirt (setDirty 9 True (- 3) world0) 0 \<and> m_dirt (setDirty 9 True (- 3) world0) 1 \<and>
   m_dirt (setDirty 9 True 1 world0) 0 \<and> \<not> m_dirt (setDirty 9 True 1 world0) 1 \<and>
   m_dirt (setDirty 9 True 2 world0) 1 \<and> \<not> m_dirt (setDirty 9 True 2 world0) 0 \<and>
   m_dirt (setDirty 9 True 7 world0) 1 \<and> \<not> m_dirt (setDirty 9 True 7 world0) 0 \<and>
   m_last_activity_time (setDirty 9 False 0 world0) = 9"
  using setDirty_rows [of "- 3" 9 True world0] setDirty_rows [of 1 9 True world0]
    setDirty_rows [of 2 9 True world0] setDirty_rows [of 7 9 True world0]
    setDirty_rows [of 0 9 False world0]
  by (simp add: world0_def word_sle_eq word_sless_alt)

text \<open>
  C7, as the claim has it, fails at the row \<open>-1\<close>: that row is not clamped to row 2.
  On a controller with both rows clean, \<^verbatim>\<open>setDirty(true, -1)\<close> marks the first row.
\<close>

theorem setDirty_negative_row_counterexample:
  "\<not> m_dirt world0 0 \<and> m_dirt (setDirty 9 True (- 1) world0) 0"
  by (simp add: world0_def setDirty_def Let_def lcd_defs)

subsection \<open>Sleep\<close>

text \<open>
  C6. Time is what \<^verbatim>\<open>millis()\<close> returns, a 32-bit count of milliseconds, and the time
  elapsed between two readings is their difference as the code computes it, in
  \<^verbatim>\<open>unsigned long\<close>. After \<^verbatim>\<open>stayAwake()\<close> at \<open>t0\<close>, with nothing dirty and a
  timeout that is not negative: a \<^verbatim>\<open>printMenu()\<close> at \<open>t1\<close> changes nothing while the
  elapsed time is at most the timeout, and the controller is awake; once the elapsed
  time is above the timeout, \<^verbatim>\<open>printMenu()\<close> sends the backlight-off command and
  sets the asleep flag.
\<close>

theorem printMenu_sleeps_after_timeout:
  assumes "\<not> m_dirty w" "0 \<le>s m_sleep_timeout w"
  shows "(uint (t1 - t0) \<le> sint (m_sleep_timeout w) \<longrightarrow>
            printMenu t1 alloc (stayAwake t0 w) = Inr (stayAwake t0 w) \<and>
            \<not> m_is_asleep (stayAwake t0 w)) \<and>
         (sint (m_sleep_timeout w) < uint (t1 - t0) \<longrightarrow>
            (\<exists>w'. printMenu t1 alloc (stayAwake t0 w) = Inr w' \<and> m_is_asleep w' \<and>
                  trace w' = trace (stayAwake t0 w) @ [PrintByte 0x7C, PrintByte 128, Delay 10]))"
proof -
  let ?w = "stayAwake t0 w"
  have f: "\<not> m_dirty ?w" "m_sleep_timeout ?w = m_sleep_timeout w" "m_last_activity_time ?w = t0"
    "\<not> m_is_asleep ?w"
    using assms(1) by (simp_all add: lcd_defs)
  have p: "printMenu t1 alloc ?w =
      (if sint (m_sleep_timeout w) < uint (t1 - t0) then Inr (sleep ?w) else Inr ?w)"
    using f sleeps_iff [OF assms(2), of "t1 - t0"] by (simp add: printMenu_def)
  have s: "m_is_asleep (sleep ?w)"
    "trace (sleep ?w) = trace ?w @ [PrintByte 0x7C, PrintByte 128, Delay 10]"
    by (simp_all add: sleep_def backlightOff_def emit_def)
  from p s f(4) show ?thesis by simp
qed

theorem printMenu_sleeps_after_timeout_witness:
  "\<not> m_dirty world0 \<and> 0 \<le>s m_sleep_timeout world0 \<and>
   uint (31000 - 1000 :: ulong) \<le> sint (m_sleep_timeout world0) \<and>
   sint (m_sleep_timeout world0) < uint (31001 - 1000 :: ulong) \<and>
   printMenu 31000 (50, speed) (stayAwake 1000 world0) = Inr (stayAwake 1000 world0) \<and>
   (\<exists>w'. printMenu 31001 (50, speed) (stayAwake 1000 world0) = Inr w' \<and> m_is_asleep w' \<and>
      trace w' = [PrintByte 0x7C, PrintByte 128, Delay 10])"
  using printMenu_sleeps_after_timeout [of world0 31000 1000 "(50, speed)"]
    printMenu_sleeps_after_timeout [of world0 31001 1000 "(50, speed)"]
  by (simp add: world0_def word_sle_eq stayAwake_def)

subsection \<open>Redraw\<close>

text \<open>
  C5. The controller has a section, and the section's current parameter is an object
  \<open>ob\<close> (one of its parameters, or the placeholder of an empty section) whose second
  line can be read; the timeout is not negative. After \<^verbatim>\<open>setDirty(true)\<close> at \<open>t0\<close>,
  one \<^verbatim>\<open>printMenu()\<close> returns with the any-redraw flag and both row flags cleared.
  What it sent is, in this order: one clear command (the bytes 0xFE and 0x01), the
  cursor command of row 1 and one text, the name; the cursor command of row 2 and one
  text, the number of a numeric parameter or the state string of an enumerated one. A
  \<^verbatim>\<open>printMenu()\<close> that follows while the elapsed time is at most the timeout changes
  nothing: it sends nothing.
\<close>

theorem printMenu_redraws_once:
  assumes sec: "m_cur_section w = Some r" "sections w r = Some sec"
    and cur: "getCurrentParameter alloc sec (objects w) = Inr (Some a, objs)" "objs a = Some ob"
    and disp: "\<not> isFloatValue ob \<longrightarrow> getDisplayValue ob = Inr str"
    and tmo: "0 \<le>s m_sleep_timeout w"
  shows "\<exists>w'. printMenu t1 alloc (setDirty t0 True 0 w) = Inr w' \<and>
      \<not> m_dirty w' \<and> \<not> m_dirt w' 0 \<and> \<not> m_dirt w' 1 \<and>
      trace w' = trace (setDirty t0 True 0 w) @
        [PrintByte 0xFE, PrintByte 0x01, Delay 10,
         PrintByte 0xFE, PrintByte 128, Delay 10, PrintStr (obj_getName ob),
         PrintByte 0xFE, PrintByte 192, Delay 10,
         (if isFloatValue ob then PrintFloat (obj_getValue ob) else PrintStr str)] \<and>
      (uint (t2 - t0) \<le> sint (m_sleep_timeout w) \<longrightarrow> printMenu t2 alloc' w' = Inr w')"
proof -
  let ?w = "setDirty t0 True 0 w"
  have f: "m_dirty ?w" "m_dirt ?w 0" "m_dirt ?w 1" "m_cur_section ?w = Some r"
    "sections ?w = sections w" "objects ?w = objects w" "m_last_activity_time ?w = t0"
    "m_sleep_timeout ?w = m_sleep_timeout w"
    using sec by (simp_all add: setDirty_def Let_def lcd_defs)
  define item where
    "item = (if isFloatValue ob then PrintFloat (obj_getValue ob) else PrintStr str)"
  define w' where "w' = ?w\<lparr>m_dirty := False, m_dirt := (m_dirt ?w)(0 := False, 1 := False),
      objects := objs,
      trace := trace ?w @ [PrintByte 0xFE, PrintByte 0x01, Delay 10,
         PrintByte 0xFE, PrintByte 128, Delay 10, PrintStr (obj_getName ob),
         PrintByte 0xFE, PrintByte 192, Delay 10, item]\<rparr>"
  have p: "printMenu t1 alloc ?w = Inr w'"
  proof (cases "isFloatValue ob")
    case True
    with f sec cur show ?thesis
      by (simp add: printMenu_def Let_def deref_def lcd_defs w'_def item_def)
  next
    case False
    with f sec cur disp show ?thesis
      by (simp add: printMenu_def Let_def deref_def lcd_defs w'_def item_def)
  qed
  have g: "\<not> m_dirty w'" "\<not> m_dirt w' 0" "\<not> m_dirt w' 1" "m_last_activity_time w' = t0"
    "m_sleep_timeout w' = m_sleep_timeout w"
    using f by (simp_all add: w'_def)
  have q: "printMenu t2 alloc' w' = Inr w'" if "uint (t2 - t0) \<le> sint (m_sleep_timeout w)"
    using that g sleeps_iff [OF tmo, of "t2 - t0"] by (simp add: printMenu_def)
  have t: "trace w' = trace ?w @ [PrintByte 0xFE, PrintByte 0x01, Delay 10,
         PrintByte 0xFE, PrintByte 128, Delay 10, PrintStr (obj_getName ob),
         PrintByte 0xFE, PrintByte 192, Delay 10, item]"
    by (simp add: w'_def)
  from p g q t show ?thesis unfolding item_def by blast
qed

theorem printMenu_redraws_once_witness:
  "m_cur_section world0 = Some 1 \<and> sections world0 1 = Some section3 \<and>
   getCurrentParameter (50, speed) section3 (objects world0) = Inr (Some 10, objects world0) \<and>
   objects world0 10 = Some (Parameter speed) \<and>
   getCurrentParameter (50, speed) (section3\<lparr>s_index := 1\<rparr>) (objects world1)
     = Inr (Some 11, objects world1) \<and>
   objects world1 11 = Some (Button button4) \<and>
   \<not> isFloatValue (Button button4) \<and> getDisplayValue (Button button4) = Inr ''A'' \<and>
   0 \<le>s m_sleep_timeout world0 \<and>
   (\<exists>w'. printMenu 6 (50, speed) (setDirty 5 True 0 world0) = Inr w' \<and>
      \<not> m_dirty w' \<and> \<not> m_dirt w' 0 \<and> \<not> m_dirt w' 1 \<and>
      trace w' =
        [PrintByte 0xFE, PrintByte 0x01, Delay 10,
         PrintByte 0xFE, PrintByte 128, Delay 10, PrintStr ''Speed'',
         PrintByte 0xFE, PrintByte 192, Delay 10, PrintFloat 10] \<and>
      printMenu 7 (50, speed) w' = Inr w') \<and>
   (\<exists>w'. printMenu 6 (50, speed) (setDirty 5 True 0 world1) = Inr w' \<and>
      trace w' =
        [PrintByte 0xFE, PrintByte 0x01, Delay 10,
         PrintByte 0xFE, PrintByte 128, Delay 10, PrintStr ''Mode'',
         PrintByte 0xFE, PrintByte 192, Delay 10, PrintStr ''A''] \<and>
      printMenu 7 (50, speed) w' = Inr w')"
proof -
  have h0: "m_cur_section world0 = Some 1" "sections world0 1 = Some section3"
    "getCurrentParameter (50, speed) section3 (objects world0) = Inr (Some 10, objects world0)"
    "objects world0 10 = Some (Parameter speed)" "0 \<le>s m_sleep_timeout world0"
    by (simp_all add: world0_def section3_def getCurrentParameter_def word_sle_eq word_sless_alt)
  have h1: "m_cur_section world1 = Some 1" "sections world1 1 = Some (section3\<lparr>s_index := 1\<rparr>)"
    "getCurrentParameter (50, speed) (section3\<lparr>s_index := 1\<rparr>) (objects world1)
       = Inr (Some 11, objects world1)"
    "objects world1 11 = Some (Button button4)" "0 \<le>s m_sleep_timeout world1"
    "\<not> isFloatValue (Button button4)" "getDisplayValue (Button button4) = Inr ''A''"
    by (simp_all add: world1_def world0_def section3_def getCurrentParameter_def button4_def
        word_sle_eq word_sless_alt)
  have t: "trace (setDirty 5 True 0 world0) = []" "trace (setDirty 5 True 0 world1) = []"
    "uint (7 - 5 :: ulong) \<le> sint (m_sleep_timeout world0)"
    "uint (7 - 5 :: ulong) \<le> sint (m_sleep_timeout world1)"
    "obj_getName (Parameter speed) = ''Speed''" "obj_getValue (Parameter speed) = 10"
    "obj_getName (Button button4) = ''Mode''"
    by (simp_all add: world1_def world0_def setDirty_def Let_def lcd_defs speed_def button4_def
        LCDMenuParameter_getName_def LCDMenuParameter_getValue_def)
  from printMenu_redraws_once [OF h0(1,2,3,4) _ h0(5), of "[]" 6 5 7 "(50, speed)"]
    printMenu_redraws_once [OF h1(1,2,3,4) _ h1(5), of "''A''" 6 5 7 "(50, speed)"] h0 h1 t
  show ?thesis by simp blast
qed

subsection \<open>The dirty flags\<close>

lemma setDirty_any:
  "m_dirty (setDirty now d row w) = d"
  by (simp add: setDirty_def Let_def lcd_defs)

lemma setDirty_both:
  assumes "row \<le>s 0"
  shows "m_dirt (setDirty now d row w) 0 = d \<and> m_dirt (setDirty now d row w) 1 = d"
  using assms by (simp add: setDirty_def Let_def lcd_defs)

lemma setDirty_true_marks_a_row:
  "m_dirt (setDirty now True row w) 0 \<or> m_dirt (setDirty now True row w) 1"
proof (cases "row \<le>s 0")
  case True
  then show ?thesis by (simp add: setDirty_def Let_def lcd_defs)
next
  case False
  show ?thesis
  proof (cases "row \<le>s 2")
    case True
    with False row_1_or_2 have "row = 1 \<or> row = 2" by blast
    then show ?thesis by (auto simp add: setDirty_def Let_def lcd_defs)
  next
    case False
    with \<open>\<not> row \<le>s 0\<close> show ?thesis by (simp add: setDirty_def Let_def lcd_defs)
  qed
qed

lemma printMenu_dirty_flags:
  assumes "m_dirty w" "printMenu now alloc w = Inr w'"
  shows "\<not> m_dirty w' \<and> \<not> m_dirt w' 0 \<and> \<not> m_dirt w' 1"
  using assms
  by (auto simp add: printMenu_def Let_def lcd_defs split: sum.splits prod.splits if_splits)

lemma printMenu_clean_flags:
  assumes "\<not> m_dirty w" "printMenu now alloc w = Inr w'"
  shows "m_dirty w' = m_dirty w \<and> m_dirt w' = m_dirt w"
  using assms
  by (auto simp add: printMenu_def lcd_defs split: if_splits)

text \<open>Every operation but \<^verbatim>\<open>setDirty\<close> and \<^verbatim>\<open>printMenu\<close> ends in a \<^verbatim>\<open>setDirty(true, ...)\<close>.\<close>

lemma marks_dirty:
  assumes "perform F c w = Inr w'" "\<forall>now d row. c \<noteq> SetDirty now d row"
    "\<forall>now alloc. c \<noteq> PrintMenu now alloc"
  shows "\<exists>now row w0. w' = setDirty now True row w0"
proof (cases c)
  case (NextItem now)
  with assms(1) show ?thesis
    by (auto simp add: LCDMenu_nextItem_def split: option.splits)
next
  case (PrevItem now)
  with assms(1) show ?thesis
    by (auto simp add: LCDMenu_prevItem_def split: option.splits)
next
  case (IncCurrentParam t_event now alloc inc)
  with assms(1) show ?thesis
    by (auto simp add: incCurrentParam_def split: sum.splits option.splits prod.splits)
next
  case (AddSection now sect parent)
  with assms(1) show ?thesis
    by (auto simp add: addSection_def Let_def)
next
  case (SetDirty now d row)
  with assms(2) show ?thesis by blast
next
  case (PrintMenu now alloc)
  with assms(3) show ?thesis by blast
qed

lemma perform_forward:
  assumes "perform F c w = Inr w'" "m_dirty w \<longrightarrow> m_dirt w 0 \<or> m_dirt w 1"
  shows "m_dirty w' \<longrightarrow> m_dirt w' 0 \<or> m_dirt w' 1"
proof (cases c)
  case (SetDirty now d row)
  with assms(1) have "w' = setDirty now d row w" by simp
  then show ?thesis
    using setDirty_any [of now d row w] setDirty_true_marks_a_row [of now row w] by auto
next
  case (PrintMenu now alloc)
  with assms(1) have p: "printMenu now alloc w = Inr w'" by simp
  show ?thesis
  proof (cases "m_dirty w")
    case True
    from printMenu_dirty_flags [OF True p] show ?thesis by simp
  next
    case False
    from printMenu_clean_flags [OF False p] False show ?thesis by simp
  qed
next
  case (NextItem now)
  with marks_dirty [OF assms(1)] obtain t row w0 where "w' = setDirty t True row w0" by auto
  then show ?thesis using setDirty_true_marks_a_row [of t row w0] by simp
next
  case (PrevItem now)
  with marks_dirty [OF assms(1)] obtain t row w0 where "w' = setDirty t True row w0" by auto
  then show ?thesis using setDirty_true_marks_a_row [of t row w0] by simp
next
  case (IncCurrentParam t_event now alloc inc)
  with marks_dirty [OF assms(1)] obtain t row w0 where "w' = setDirty t True row w0" by auto
  then show ?thesis using setDirty_true_marks_a_row [of t row w0] by simp
next
  case (AddSection now sect parent)
  with marks_dirty [OF assms(1)] obtain t row w0 where "w' = setDirty t True row w0" by auto
  then show ?thesis using setDirty_true_marks_a_row [of t row w0] by simp
qed

lemma perform_backward:
  assumes "perform F c w = Inr w'" "\<not> clears_one_row c"
    "m_dirt w 0 \<or> m_dirt w 1 \<longrightarrow> m_dirty w"
  shows "m_dirt w' 0 \<or> m_dirt w' 1 \<longrightarrow> m_dirty w'"
proof (cases c)
  case (SetDirty now d row)
  with assms(1) have w': "w' = setDirty now d row w" by simp
  from SetDirty assms(2) have "d \<or> row \<le>s 0" by (auto simp add: word_sle_eq word_sless_alt)
  then show ?thesis
    using setDirty_any [of now d row w] setDirty_both [of row now d w] w' by auto
next
  case (PrintMenu now alloc)
  with assms(1) have p: "printMenu now alloc w = Inr w'" by simp
  show ?thesis
  proof (cases "m_dirty w")
    case True
    from printMenu_dirty_flags [OF True p] show ?thesis by simp
  next
    case False
    from printMenu_clean_flags [OF False p] assms(3) show ?thesis by simp
  qed
next
  case (NextItem now)
  with marks_dirty [OF assms(1)] obtain t row w0 where "w' = setDirty t True row w0" by auto
  then show ?thesis using setDirty_any [of t True row w0] by simp
next
  case (PrevItem now)
  with marks_dirty [OF assms(1)] obtain t row w0 where "w' = setDirty t True row w0" by auto
  then show ?thesis using setDirty_any [of t True row w0] by simp
next
  case (IncCurrentParam t_event now alloc inc)
  with marks_dirty [OF assms(1)] obtain t row w0 where "w' = setDirty t True row w0" by auto
  then show ?thesis using setDirty_any [of t True row w0] by simp
next
  case (AddSection now sect parent)
  with marks_dirty [OF assms(1)] obtain t row w0 where "w' = setDirty t True row w0" by auto
  then show ?thesis using setDirty_any [of t True row w0] by simp
qed

lemma perform_all_forward:
  assumes "perform_all F calls w = Inr w'"
    and "m_dirty w \<longrightarrow> m_dirt w 0 \<or> m_dirt w 1"
  shows "m_dirty w' \<longrightarrow> m_dirt w' 0 \<or> m_dirt w' 1"
  using assms
proof (induction calls arbitrary: w)
  case Nil
  then show ?case by simp
next
  case (Cons c cs)
  from Cons.prems(1) obtain w1 where s: "perform F c w = Inr w1" "perform_all F cs w1 = Inr w'"
    by (auto split: sum.splits)
  from perform_forward [OF s(1) Cons.prems(2)] Cons.IH [OF s(2)] show ?case by blast
qed

lemma perform_all_backward:
  assumes "perform_all F calls w = Inr w'"
    and "\<forall>c\<in>set calls. \<not> clears_one_row c"
    and "m_dirt w 0 \<or> m_dirt w 1 \<longrightarrow> m_dirty w"
  shows "m_dirt w' 0 \<or> m_dirt w' 1 \<longrightarrow> m_dirty w'"
  using assms
proof (induction calls arbitrary: w)
  case Nil
  then show ?case by simp
next
  case (Cons c cs)
  from Cons.prems(1) obtain w1 where s: "perform F c w = Inr w1" "perform_all F cs w1 = Inr w'"
    by (auto split: sum.splits)
  from Cons.prems(2) have n: "\<not> clears_one_row c" "\<forall>c\<in>set cs. \<not> clears_one_row c"
    by simp_all
  from perform_backward [OF s(1) n(1) Cons.prems(3)] Cons.IH [OF s(2) n(2)] show ?case
    by blast
qed

lemma init_flags:
  "m_dirty (LCDMenu_init now raw)" "m_dirt (LCDMenu_init now raw) 0"
  "m_dirt (LCDMenu_init now raw) 1"
  by (simp_all add: LCDMenu_init_def setDirty_def Let_def lcd_defs)

text \<open>
  C4, as the claim has it, fails: \<^verbatim>\<open>setDirty(false, 1)\<close> on the controller as its
  constructor leaves it clears the any-redraw flag and the flag of row 1, and the flag
  of row 2 stays set.
\<close>

theorem dirty_flags_disagree_counterexample:
  "perform_all int_ops [SetDirty 20 False 1] (LCDMenu_init 10 world0)
     = Inr (setDirty 20 False 1 (LCDMenu_init 10 world0)) \<and>
   \<not> m_dirty (setDirty 20 False 1 (LCDMenu_init 10 world0)) \<and>
   m_dirt (setDirty 20 False 1 (LCDMenu_init 10 world0)) 1"
  by (simp add: LCDMenu_init_def setDirty_def Let_def lcd_defs word_sle_eq)

text \<open>
  C4, as the code has it. In every state that the controller reaches from its
  constructor through calls of \<^verbatim>\<open>setDirty\<close>, \<^verbatim>\<open>printMenu\<close>, \<^verbatim>\<open>nextItem\<close>, \<^verbatim>\<open>prevItem\<close>,
  \<^verbatim>\<open>incCurrentParam\<close> and \<^verbatim>\<open>addSection\<close> that return: if the any-redraw flag is set, a
  row flag is set. If no call among them was a \<^verbatim>\<open>setDirty(false, row)\<close> with
  \<open>row > 0\<close>, the converse holds too, and the any-redraw flag is set exactly when a
  row flag is.
\<close>

theorem dirty_flags_reachable:
  assumes "perform_all F calls (LCDMenu_init now raw) = Inr w"
  shows "(m_dirty w \<longrightarrow> m_dirt w 0 \<or> m_dirt w 1) \<and>
         ((\<forall>c\<in>set calls. \<not> clears_one_row c) \<longrightarrow> (m_dirt w 0 \<or> m_dirt w 1 \<longrightarrow> m_dirty w))"
  using perform_all_forward [OF assms] perform_all_backward [OF assms] init_flags [of now raw]
  by blast

theorem dirty_flags_reachable_witness:
  "list_all (\<lambda>c. \<not> clears_one_row c)
     [AddSection 11 (Some 1) None, PrintMenu 12 (50, speed), NextItem 13,
      IncCurrentParam 14 15 (50, speed) 3, SetDirty 16 False 0, PrevItem 17] \<and>
   (\<exists>w. perform_all int_ops
          [AddSection 11 (Some 1) None, PrintMenu 12 (50, speed), NextItem 13,
           IncCurrentParam 14 15 (50, speed) 3, SetDirty 16 False 0, PrevItem 17]
          (LCDMenu_init 10 world0) = Inr w \<and>
        (m_dirty w \<longleftrightarrow> m_dirt w 0 \<or> m_dirt w 1))"
proof -
  let ?calls = "[AddSection 11 (Some 1) None, PrintMenu 12 (50, speed), NextItem 13,
               IncCurrentParam 14 15 (50, speed) 3, SetDirty 16 False 0, PrevItem 17]"
  have n: "\<forall>c\<in>set ?calls. \<not> clears_one_row c" by simp
  have "\<exists>w. perform_all int_ops ?calls (LCDMenu_init 10 world0) = Inr w"
    by (simp add: LCDMenu_init_def setDirty_def Let_def lcd_defs addSection_def printMenu_def
        deref_def getCurrentParameter_def LCDMenu_nextItem_def LCDMenu_prevItem_def
        incCurrentParam_def LCDMenuSection_nextItem_def LCDMenuSection_prevItem_def
        LCDMenuParameter_incValue_def LCDMenuParameter_setValue_def
        world0_def section3_def speed_def button4_def int_ops_def word_sle_eq word_sless_alt)
  then obtain w where w: "perform_all int_ops ?calls (LCDMenu_init 10 world0) = Inr w" ..
  from dirty_flags_reachable [OF w] n have "m_dirty w \<longleftrightarrow> m_dirt w 0 \<or> m_dirt w 1" by blast
  with w n show ?thesis unfolding list_all_iff by blast
qed

end
